theory Spec2Isabelle
  imports Complex_Main "HOL-Library.Word"
begin

unbundle bit_operations_syntax

section \<open>Python values: strings, bytes and exceptions\<close>

text \<open>
  A Python \<open>str\<close> is a sequence of Unicode code points, numbers from 0 to
  \<open>0x10FFFF\<close>; it may hold lone surrogates (\<open>0xD800\<close> to \<open>0xDFFF\<close>), which
  have no UTF-8 encoding. A list with a larger number stands for no \<open>str\<close>. The
  function \<open>py\<close> reads an ASCII literal as such a sequence.

  A call either returns or raises. The exceptions are the ones the code and the
  libraries under it raise; \<open>KeyboardInterrupt\<close>, \<open>SystemExit\<close> and the
  \<open>PanicException\<close> of the \<open>cryptography\<close> package's Rust layer derive from
  \<open>BaseException\<close> only, all others from \<open>Exception\<close>. Running out of memory is not
  modelled.
\<close>

type_synonym byte = "8 word"

type_synonym pystr = "nat list"

datatype exn =
    UnicodeEncodeError | OverflowError | InvalidSignature | UnsupportedAlgorithm
  | TypeError | ValueError | KeyboardInterrupt | SystemExit | PanicException

fun is_Exception :: "exn \<Rightarrow> bool" where
  "is_Exception KeyboardInterrupt = False"
| "is_Exception SystemExit = False"
| "is_Exception PanicException = False"
| "is_Exception e = True"

definition py :: "string \<Rightarrow> pystr" where
  "py s = map of_char s"

text \<open>
  \<open>s.encode()\<close> and \<open>s.encode('utf-8')\<close>: one to four bytes per code point, and
  \<open>UnicodeEncodeError\<close> at the first code point that has no encoding.
\<close>

definition encode_code_point :: "nat \<Rightarrow> exn + byte list" where
  "encode_code_point c =
    (if c < 0x80 then Inr [of_nat c]
     else if c < 0x800 then Inr [of_nat (0xC0 + c div 64), of_nat (0x80 + c mod 64)]
     else if 0xD800 \<le> c \<and> c \<le> 0xDFFF then Inl UnicodeEncodeError
     else if c < 0x10000 then
       Inr [of_nat (0xE0 + c div 4096), of_nat (0x80 + c div 64 mod 64), of_nat (0x80 + c mod 64)]
     else if c \<le> 0x10FFFF then
       Inr [of_nat (0xF0 + c div 262144), of_nat (0x80 + c div 4096 mod 64),
            of_nat (0x80 + c div 64 mod 64), of_nat (0x80 + c mod 64)]
     else Inl UnicodeEncodeError)"

fun encode :: "pystr \<Rightarrow> exn + byte list" where
  "encode [] = Inr []"
| "encode (c # cs) =
    (case encode_code_point c of
       Inl e \<Rightarrow> Inl e
     | Inr b \<Rightarrow> (case encode cs of Inl e \<Rightarrow> Inl e | Inr bs \<Rightarrow> Inr (b @ bs)))"

text \<open>
  \<open>s * n\<close> for a string and an integer: the integer must fit the index type of the
  interpreter (64 bits), otherwise \<open>OverflowError\<close>; a count below 1 gives the empty
  string. Whether a very long string can be allocated depends on the machine; the model
  builds it.
\<close>

definition str_repeat :: "pystr \<Rightarrow> int \<Rightarrow> exn + pystr" where
  "str_repeat s n =
    (if n < - (2 ^ 63) \<or> 2 ^ 63 \<le> n then Inl OverflowError
     else Inr (concat (replicate (nat n) s)))"

text \<open>
  The decimal text of a counter, as \<open>f"{nonce}"\<close> prints it. The counter starts at 0
  and is only ever incremented, so it is a natural number.
\<close>

fun str :: "nat \<Rightarrow> pystr" where
  "str n = (if n < 10 then [48 + n] else str (n div 10) @ [48 + n mod 10])"

declare str.simps [simp del]

text \<open>Python's \<open>s.startswith(p)\<close>.\<close>

fun startswith :: "pystr \<Rightarrow> pystr \<Rightarrow> bool" where
  "startswith s [] = True"
| "startswith [] (p # ps) = False"
| "startswith (c # cs) (p # ps) = (c = p \<and> startswith cs ps)"

section \<open>SHA-256\<close>

text \<open>
  \<open>hashlib.sha256(data).hexdigest()\<close> is the standard hash function of FIPS 180-4,
  written out here so that digests can be computed: the message is padded to a multiple
  of 64 bytes, each block is expanded to 64 words and folded into eight 32-bit chaining
  words, and the final chaining value is printed as lowercase hexadecimal digits.
\<close>

definition K256 :: "32 word list" where
  "K256 =
   [0x428A2F98, 0x71374491, 0xB5C0FBCF, 0xE9B5DBA5, 0x3956C25B, 0x59F111F1, 0x923F82A4, 0xAB1C5ED5,
    0xD807AA98, 0x12835B01, 0x243185BE, 0x550C7DC3, 0x72BE5D74, 0x80DEB1FE, 0x9BDC06A7, 0xC19BF174,
    0xE49B69C1, 0xEFBE4786, 0x0FC19DC6, 0x240CA1CC, 0x2DE92C6F, 0x4A7484AA, 0x5CB0A9DC, 0x76F988DA,
    0x983E5152, 0xA831C66D, 0xB00327C8, 0xBF597FC7, 0xC6E00BF3, 0xD5A79147, 0x06CA6351, 0x14292967,
    0x27B70A85, 0x2E1B2138, 0x4D2C6DFC, 0x53380D13, 0x650A7354, 0x766A0ABB, 0x81C2C92E, 0x92722C85,
    0xA2BFE8A1, 0xA81A664B, 0xC24B8B70, 0xC76C51A3, 0xD192E819, 0xD6990624, 0xF40E3585, 0x106AA070,
    0x19A4C116, 0x1E376C08, 0x2748774C, 0x34B0BCB5, 0x391C0CB3, 0x4ED8AA4A, 0x5B9CCA4F, 0x682E6FF3,
    0x748F82EE, 0x78A5636F, 0x84C87814, 0x8CC70208, 0x90BEFFFA, 0xA4506CEB, 0xBEF9A3F7, 0xC67178F2]"

record sha_state =
  sa :: "32 word"
  sb :: "32 word"
  sc :: "32 word"
  sd :: "32 word"
  se :: "32 word"
  sf :: "32 word"
  sg :: "32 word"
  sh :: "32 word"

definition H256_init :: sha_state where
  "H256_init = \<lparr>sa = 0x6a09e667, sb = 0xbb67ae85, sc = 0x3c6ef372, sd = 0xa54ff53a,
                 se = 0x510e527f, sf = 0x9b05688c, sg = 0x1f83d9ab, sh = 0x5be0cd19\<rparr>"

definition Ch :: "32 word \<Rightarrow> 32 word \<Rightarrow> 32 word \<Rightarrow> 32 word" where
  "Ch x y z = (x AND y) XOR (NOT x AND z)"

definition Maj :: "32 word \<Rightarrow> 32 word \<Rightarrow> 32 word \<Rightarrow> 32 word" where
  "Maj x y z = (x AND y) XOR (x AND z) XOR (y AND z)"

definition Sigma0 :: "32 word \<Rightarrow> 32 word" where
  "Sigma0 x = word_rotr 2 x XOR word_rotr 13 x XOR word_rotr 22 x"

definition Sigma1 :: "32 word \<Rightarrow> 32 word" where
  "Sigma1 x = word_rotr 6 x XOR word_rotr 11 x XOR word_rotr 25 x"

definition sigma0 :: "32 word \<Rightarrow> 32 word" where
  "sigma0 x = word_rotr 7 x XOR word_rotr 18 x XOR drop_bit 3 x"

definition sigma1 :: "32 word \<Rightarrow> 32 word" where
  "sigma1 x = word_rotr 17 x XOR word_rotr 19 x XOR drop_bit 10 x"

text \<open>
  Padding: the byte \<open>0x80\<close>, zero bytes up to 56 modulo 64, and the bit length of the
  message as a 64-bit big-endian number.
\<close>

definition be64 :: "64 word \<Rightarrow> byte list" where
  "be64 n = map (\<lambda>i. ucast (drop_bit (8 * (7 - i)) n)) [0..<8]"

definition pad :: "byte list \<Rightarrow> byte list" where
  "pad m = m @ [0x80] @ replicate ((119 - length m mod 64) mod 64) 0 @ be64 (of_nat (8 * length m))"

text \<open>
  A block is read as sixteen big-endian words. Padded messages are cut into blocks of
  exactly 64 bytes, so \<open>be32\<close> only ever sees four bytes.
\<close>

fun be32 :: "byte list \<Rightarrow> 32 word" where
  "be32 [b0, b1, b2, b3] = push_bit 24 (ucast b0) OR push_bit 16 (ucast b1) OR push_bit 8 (ucast b2) OR ucast b3"
| "be32 _ = 0"

fun words_of :: "nat \<Rightarrow> byte list \<Rightarrow> 32 word list" where
  "words_of 0 bs = []"
| "words_of (Suc n) bs = be32 (take 4 bs) # words_of n (drop 4 bs)"

fun schedule :: "nat \<Rightarrow> 32 word list \<Rightarrow> 32 word list" where
  "schedule 0 w = w"
| "schedule (Suc n) w =
     schedule n (w @ [sigma1 (w ! (length w - 2)) + w ! (length w - 7)
                      + sigma0 (w ! (length w - 15)) + w ! (length w - 16)])"

definition sha_round :: "sha_state \<Rightarrow> 32 word \<times> 32 word \<Rightarrow> sha_state" where
  "sha_round s kw =
    (let T1 = sh s + Sigma1 (se s) + Ch (se s) (sf s) (sg s) + fst kw + snd kw;
         T2 = Sigma0 (sa s) + Maj (sa s) (sb s) (sc s)
     in \<lparr>sa = T1 + T2, sb = sa s, sc = sb s, sd = sc s,
         se = sd s + T1, sf = se s, sg = sf s, sh = sg s\<rparr>)"

definition compress :: "sha_state \<Rightarrow> byte list \<Rightarrow> sha_state" where
  "compress H block =
    (let W = schedule 48 (words_of 16 block);
         s = foldl sha_round H (zip K256 W)
     in \<lparr>sa = sa H + sa s, sb = sb H + sb s, sc = sc H + sc s, sd = sd H + sd s,
         se = se H + se s, sf = sf H + sf s, sg = sg H + sg s, sh = sh H + sh s\<rparr>)"

fun blocks :: "nat \<Rightarrow> sha_state \<Rightarrow> byte list \<Rightarrow> sha_state" where
  "blocks 0 H bs = H"
| "blocks (Suc n) H bs = blocks n (compress H (take 64 bs)) (drop 64 bs)"

definition sha256 :: "byte list \<Rightarrow> sha_state" where
  "sha256 m = (let p = pad m in blocks (length p div 64) H256_init p)"

text \<open>The digest as text: eight hexadecimal digits per word, most significant first.\<close>

definition hexchar :: "nat \<Rightarrow> char" where
  "hexchar n = ''0123456789abcdef'' ! n"

definition hex32 :: "32 word \<Rightarrow> string" where
  "hex32 w = map (\<lambda>i. hexchar (unat (drop_bit (4 * (7 - i)) w AND 0xf))) [0..<8]"

definition hexdigest :: "sha_state \<Rightarrow> string" where
  "hexdigest s = hex32 (sa s) @ hex32 (sb s) @ hex32 (sc s) @ hex32 (sd s)
               @ hex32 (se s) @ hex32 (sf s) @ hex32 (sg s) @ hex32 (sh s)"



section \<open>The proof-of-work search\<close>

text \<open>
  \<open>pow_mining\<close> (pow_mining.py) and \<open>find_pow_hash\<close> (rsa_signature.py). The loop
  \<open>while True\<close> has no bound, so each search is a partial function: \<open>None\<close> stands
  for a search that never ends, \<open>Some (Inl e)\<close> for one that raises \<open>e\<close>, and
  \<open>Some (Inr r)\<close> for one that returns \<open>r\<close>.

  \<open>pow_mining\<close> reads the wall clock \<open>time.time()\<close> twice, before the loop and
  after the winning test. The two readings are inputs of the model (\<open>t_start\<close> and
  \<open>t_end\<close>), taken as the real numbers the floating-point readings denote.
\<close>

partial_function (option) pow_mining_loop ::
  "pystr \<Rightarrow> pystr \<Rightarrow> real \<Rightarrow> real \<Rightarrow> nat \<Rightarrow> (exn + nat \<times> pystr \<times> pystr \<times> real) option"
where
  "pow_mining_loop nickname target start_time t_end nonce =
    (let hash_content = nickname @ str nonce
     in case encode hash_content of
          Inl e \<Rightarrow> Some (Inl e)
        | Inr data \<Rightarrow>
            (let hash_value = py (hexdigest (sha256 data))
             in if startswith hash_value target
                then (let end_time = t_end;
                          elapsed_time = end_time - start_time
                      in Some (Inr (nonce, hash_content, hash_value, elapsed_time)))
                else pow_mining_loop nickname target start_time t_end (nonce + 1)))"

definition pow_mining ::
  "real \<Rightarrow> real \<Rightarrow> pystr \<Rightarrow> int \<Rightarrow> (exn + nat \<times> pystr \<times> pystr \<times> real) option"
where
  "pow_mining t_start t_end nickname target_zeros =
    (let nonce = 0
     in case str_repeat (py ''0'') target_zeros of
          Inl e \<Rightarrow> Some (Inl e)
        | Inr target \<Rightarrow>
            (let start_time = t_start
             in pow_mining_loop nickname target start_time t_end nonce))"

partial_function (option) find_pow_hash_loop ::
  "pystr \<Rightarrow> pystr \<Rightarrow> nat \<Rightarrow> (exn + nat \<times> pystr \<times> pystr) option"
where
  "find_pow_hash_loop nickname target nonce =
    (let hash_content = nickname @ str nonce
     in case encode hash_content of
          Inl e \<Rightarrow> Some (Inl e)
        | Inr data \<Rightarrow>
            (let hash_value = py (hexdigest (sha256 data))
             in if startswith hash_value target
                then Some (Inr (nonce, hash_content, hash_value))
                else find_pow_hash_loop nickname target (nonce + 1)))"

definition find_pow_hash :: "pystr \<Rightarrow> int \<Rightarrow> (exn + nat \<times> pystr \<times> pystr) option" where
  "find_pow_hash nickname target_zeros =
    (let nonce = 0
     in case str_repeat (py ''0'') target_zeros of
          Inl e \<Rightarrow> Some (Inl e)
        | Inr target \<Rightarrow> find_pow_hash_loop nickname target nonce)"

text \<open>
  Vocabulary for the statements below: whether a string has a UTF-8 encoding, and its
  bytes when it has one; the digest of the seed followed by the decimal text of a counter;
  the test that a digest starts with \<open>D\<close> zero characters; the number that a string of
  decimal digits denotes; and the projection that forgets the elapsed time.
\<close>

definition encodable :: "pystr \<Rightarrow> bool" where
  "encodable s = (case encode s of Inl e \<Rightarrow> False | Inr data \<Rightarrow> True)"

definition utf8 :: "pystr \<Rightarrow> byte list" where
  "utf8 s = (case encode s of Inl e \<Rightarrow> [] | Inr data \<Rightarrow> data)"

definition digest_of :: "pystr \<Rightarrow> nat \<Rightarrow> pystr" where
  "digest_of seed counter = py (hexdigest (sha256 (utf8 (seed @ str counter))))"

definition zero_prefix :: "int \<Rightarrow> pystr \<Rightarrow> bool" where
  "zero_prefix D digest = (take (nat D) digest = replicate (nat D) 48)"

definition decimal_value :: "pystr \<Rightarrow> nat" where
  "decimal_value s = foldl (\<lambda>a c. 10 * a + (c - 48)) 0 s"

definition without_time :: "nat \<times> pystr \<times> pystr \<times> real \<Rightarrow> nat \<times> pystr \<times> pystr" where
  "without_time r = (fst r, fst (snd r), fst (snd (snd r)))"

section \<open>Signing and verifying\<close>

text \<open>
  \<open>sign_message\<close> and \<open>verify_signature\<close> (rsa_signature.py) are wrappers around the
  RSA implementation of the \<open>cryptography\<close> package, which is not part of the
  repository. The two library methods are parameters of the model; each call either
  returns or raises any exception.
\<close>

datatype hash_algorithm = SHA1 | SHA256 | SHA512

datatype mgf = MGF1 hash_algorithm

datatype salt_length = MAX_LENGTH | DIGEST_LENGTH | AUTO | Salt_bytes nat

datatype padding = PSS mgf salt_length | PKCS1v15

text \<open>
  Signing with PSS draws a random salt inside the library; the drawn bytes are an
  argument of the signing method, so that the method itself is a function.
\<close>

type_synonym 'sk sign_method =
  "'sk \<Rightarrow> byte list \<Rightarrow> padding \<Rightarrow> hash_algorithm \<Rightarrow> byte list \<Rightarrow> exn + byte list"

type_synonym 'pk verify_method =
  "'pk \<Rightarrow> byte list \<Rightarrow> byte list \<Rightarrow> padding \<Rightarrow> hash_algorithm \<Rightarrow> exn + unit"

definition sign_message ::
  "'sk sign_method \<Rightarrow> byte list \<Rightarrow> 'sk \<Rightarrow> pystr \<Rightarrow> exn + byte list"
where
  "sign_message sign salt private_key message =
    (case encode message of
       Inl e \<Rightarrow> Inl e
     | Inr data \<Rightarrow>
         (let signature = sign private_key data (PSS (MGF1 SHA256) MAX_LENGTH) SHA256 salt
          in signature))"

text \<open>
  \<open>try: body except Exception: return fallback\<close>: an exception that derives from
  \<open>Exception\<close> is replaced by the fallback value, any other exception leaves the
  function.
\<close>

definition except_Exception :: "exn + 'a \<Rightarrow> 'a \<Rightarrow> exn + 'a" where
  "except_Exception body fallback =
    (case body of
       Inr v \<Rightarrow> Inr v
     | Inl e \<Rightarrow> if is_Exception e then Inr fallback else Inl e)"

definition verify_signature ::
  "'pk verify_method \<Rightarrow> 'pk \<Rightarrow> pystr \<Rightarrow> byte list \<Rightarrow> exn + bool"
where
  "verify_signature verify public_key message signature =
    except_Exception
      (case encode message of
         Inl e \<Rightarrow> Inl e
       | Inr data \<Rightarrow>
           (case verify public_key signature data (PSS (MGF1 SHA256) MAX_LENGTH) SHA256 of
              Inl e \<Rightarrow> Inl e
            | Inr u \<Rightarrow> Inr True))
      False"


section \<open>Facts about the digest text\<close>

lemma length_hex32: "length (hex32 w) = 8"
  by (simp add: hex32_def)

lemma length_hexdigest: "length (hexdigest s) = 64"
  by (simp add: hexdigest_def length_hex32)

lemma nibble_less_16: "unat ((w :: 32 word) AND 0xf) < 16"
proof -
  have "w AND 0xf \<le> 0xf" by (rule word_and_le1)
  then have "unat (w AND 0xf) \<le> unat (0xf :: 32 word)" by (simp add: word_le_nat_alt)
  then show ?thesis by simp
qed

lemma hexchar_lowercase: "n < 16 \<Longrightarrow> hexchar n \<in> set ''0123456789abcdef''"
proof -
  assume "n < 16"
  have "list_all (\<lambda>k. hexchar k \<in> set ''0123456789abcdef'') [0..<16]" by code_simp
  with \<open>n < 16\<close> show ?thesis by (simp add: list_all_iff)
qed

lemma set_hex32: "set (hex32 w) \<subseteq> set ''0123456789abcdef''"
  unfolding hex32_def using hexchar_lowercase [OF nibble_less_16] by auto

lemma set_hexdigest: "set (hexdigest s) \<subseteq> set ''0123456789abcdef''"
  unfolding hexdigest_def using set_hex32 by (simp only: set_append Un_subset_iff)

lemma length_py: "length (py s) = length s"
  by (simp add: py_def)

lemma set_py_hexdigest: "set (py (hexdigest s)) \<subseteq> set (py ''0123456789abcdef'')"
  unfolding py_def set_map by (rule image_mono) (rule set_hexdigest)

text \<open>The implementation agrees with the published test vector for the message \<open>abc\<close>.\<close>

lemma sha256_abc:
  "hexdigest (sha256 [0x61, 0x62, 0x63]) =
     ''ba7816bf8f01cfea414140de5dae2223b00361a396177a9cb410ff61f20015ad''"
  by code_simp

section \<open>Facts about encoding, repetition, prefixes and decimal text\<close>

text \<open>
  The encoding at the boundaries of its four length classes and around the surrogates.
\<close>

lemma encode_examples:
  "encode [0x7F] = Inr [0x7F]"
  "encode [0x80] = Inr [0xC2, 0x80]"
  "encode [0x7FF] = Inr [0xDF, 0xBF]"
  "encode [0x800] = Inr [0xE0, 0xA0, 0x80]"
  "encode [0x4E2D] = Inr [0xE4, 0xB8, 0xAD]"
  "encode [0xD7FF] = Inr [0xED, 0x9F, 0xBF]"
  "encode [0xD800] = Inl UnicodeEncodeError"
  "encode [0xDFFF] = Inl UnicodeEncodeError"
  "encode [0xE000] = Inr [0xEE, 0x80, 0x80]"
  "encode [0xFFFF] = Inr [0xEF, 0xBF, 0xBF]"
  "encode [0x10000] = Inr [0xF0, 0x90, 0x80, 0x80]"
  "encode [0x1F600] = Inr [0xF0, 0x9F, 0x98, 0x80]"
  "encode [0x10FFFF] = Inr [0xF4, 0x8F, 0xBF, 0xBF]"
  by (simp_all add: encode_code_point_def)

lemma encode_code_point_error: "encode_code_point c = Inl e \<Longrightarrow> e = UnicodeEncodeError"
  by (simp add: encode_code_point_def split: if_splits)

lemma encode_error: "encode s = Inl e \<Longrightarrow> e = UnicodeEncodeError"
  by (induction s arbitrary: e)
     (auto split: sum.splits dest: encode_code_point_error)

lemma encode_append:
  "encode (a @ b) =
    (case encode a of
       Inl e \<Rightarrow> Inl e
     | Inr x \<Rightarrow> (case encode b of Inl e \<Rightarrow> Inl e | Inr y \<Rightarrow> Inr (x @ y)))"
  by (induction a) (auto split: sum.splits)

lemma encode_encodable: "encodable s \<Longrightarrow> encode s = Inr (utf8 s)"
  by (simp add: encodable_def utf8_def split: sum.splits)

lemma encode_not_encodable: "\<not> encodable s \<Longrightarrow> encode s = Inl UnicodeEncodeError"
  by (auto simp: encodable_def split: sum.splits dest: encode_error)

lemma encodable_append: "encodable (a @ b) = (encodable a \<and> encodable b)"
  by (simp add: encodable_def encode_append split: sum.splits)

lemma encode_ascii: "list_all (\<lambda>c. c < 128) s \<Longrightarrow> encode s = Inr (map of_nat s)"
  by (induction s) (simp_all add: encode_code_point_def)

lemma str_ascii: "list_all (\<lambda>c. c < 128) (str n)"
proof (induction n rule: str.induct)
  case (1 n)
  show ?case
  proof (cases "n < 10")
    case True
    then show ?thesis by (subst str.simps) simp
  next
    case False
    have "n mod 10 < 10" by simp
    then have "48 + n mod 10 < 128" by linarith
    with False "1.IH" show ?thesis by (subst str.simps) simp
  qed
qed

lemma encodable_str: "encodable (str n)"
  by (simp add: encodable_def encode_ascii [OF str_ascii])

lemma encodable_seed_counter: "encodable (S @ str n) = encodable S"
  by (simp add: encodable_append encodable_str)

lemma surrogate_not_encodable:
  assumes "0xD800 \<le> c" and "c \<le> 0xDFFF"
  shows "\<not> encodable (a @ c # b)"
proof -
  have "encode_code_point c = Inl UnicodeEncodeError"
    using assms by (simp add: encode_code_point_def)
  then have "\<not> encodable (c # b)" by (simp add: encodable_def)
  then show ?thesis by (simp add: encodable_append)
qed

lemma str_repeat_zero:
  "str_repeat (py ''0'') D =
    (if D < - (2 ^ 63) \<or> 2 ^ 63 \<le> D then Inl OverflowError else Inr (replicate (nat D) 48))"
proof -
  have "concat (replicate k [48 :: nat]) = replicate k 48" for k
    by (induction k) simp_all
  then show ?thesis by (simp add: str_repeat_def py_def)
qed

lemma startswith_take: "startswith s p = (take (length p) s = p)"
  by (induction s p rule: startswith.induct) auto

lemma zero_prefix_startswith:
  "zero_prefix D h = startswith h (replicate (nat D) 48)"
  by (simp add: zero_prefix_def startswith_take)

lemma zero_prefix_nonpositive: "D \<le> 0 \<Longrightarrow> zero_prefix D h"
  by (simp add: zero_prefix_def)

lemma zero_prefix_too_long: "int (length h) < D \<Longrightarrow> \<not> zero_prefix D h"
proof
  assume a: "int (length h) < D" and z: "zero_prefix D h"
  from z have "length (take (nat D) h) = length (replicate (nat D) (48 :: nat))"
    by (simp only: zero_prefix_def)
  then have "min (length h) (nat D) = nat D" by simp
  with a show False by linarith
qed

lemma length_digest_of: "length (digest_of S k) = 64"
  by (simp add: digest_of_def length_py length_hexdigest)

lemma digest_never_has_65_zeros: "64 < D \<Longrightarrow> \<not> zero_prefix D (digest_of S k)"
  by (rule zero_prefix_too_long) (simp add: length_digest_of)

lemma str_0: "str 0 = py ''0''"
  by (simp add: str.simps py_def)

lemma decimal_value_str: "decimal_value (str n) = n"
proof (induction n rule: str.induct)
  case (1 n)
  show ?case
  proof (cases "n < 10")
    case True
    then show ?thesis
      by (subst str.simps) (simp add: decimal_value_def)
  next
    case False
    have "decimal_value (str n) = 10 * decimal_value (str (n div 10)) + n mod 10"
      using False by (subst str.simps) (simp add: decimal_value_def)
    also have "\<dots> = 10 * (n div 10) + n mod 10"
      using False by (simp add: "1.IH")
    finally show ?thesis by simp
  qed
qed


section \<open>The two search loops\<close>

text \<open>
  One pass of a loop raises when the committed input has no encoding, which depends on
  the seed only; otherwise it returns at the current counter or moves to the next one.
  For a seed with an encoding the loop therefore skips every counter that fails the
  test, and it can only return at a counter that passes it.
\<close>

lemma pow_mining_loop_unencodable:
  "\<not> encodable S \<Longrightarrow> pow_mining_loop S tg st te n = Some (Inl UnicodeEncodeError)"
  by (subst pow_mining_loop.simps)
     (simp add: encode_not_encodable encodable_seed_counter)

lemma pow_mining_loop_hit:
  "encodable S \<Longrightarrow> startswith (digest_of S n) tg \<Longrightarrow>
   pow_mining_loop S tg st te n = Some (Inr (n, S @ str n, digest_of S n, te - st))"
  by (subst pow_mining_loop.simps)
     (simp add: encode_encodable encodable_seed_counter digest_of_def Let_def)

lemma pow_mining_loop_miss:
  "encodable S \<Longrightarrow> \<not> startswith (digest_of S n) tg \<Longrightarrow>
   pow_mining_loop S tg st te n = pow_mining_loop S tg st te (Suc n)"
  by (subst pow_mining_loop.simps)
     (simp add: encode_encodable encodable_seed_counter digest_of_def Let_def)

lemma pow_mining_loop_skip:
  "encodable S \<Longrightarrow>
   (\<And>k. n \<le> k \<Longrightarrow> k < n + d \<Longrightarrow> \<not> startswith (digest_of S k) tg) \<Longrightarrow>
   pow_mining_loop S tg st te n = pow_mining_loop S tg st te (n + d)"
proof (induction d)
  case 0
  show ?case by simp
next
  case (Suc d)
  have "pow_mining_loop S tg st te n = pow_mining_loop S tg st te (n + d)"
    using Suc.prems by (intro Suc.IH) simp_all
  also have "\<dots> = pow_mining_loop S tg st te (Suc (n + d))"
    using Suc.prems(1) Suc.prems(2) [of "n + d"] by (intro pow_mining_loop_miss) simp_all
  finally show ?case by simp
qed

lemma pow_mining_loop_Some_hit:
  assumes ret: "pow_mining_loop S tg st te n = Some r" and enc: "encodable S"
  shows "\<exists>k\<ge>n. startswith (digest_of S k) tg"
proof -
  have "encodable S \<longrightarrow> (\<exists>k\<ge>n. startswith (digest_of S k) tg)"
  proof (rule pow_mining_loop.raw_induct
      [where P = "\<lambda>S tg st te n r. encodable S \<longrightarrow> (\<exists>k\<ge>n. startswith (digest_of S k) tg)",
        OF _ ret])
    fix loop S' tg' n' and st' te' :: real and r' :: "exn + nat \<times> pystr \<times> pystr \<times> real"
    assume IH: "\<And>a b c d e y. loop a b c d e = Some y \<Longrightarrow>
          encodable a \<longrightarrow> (\<exists>k\<ge>e. startswith (digest_of a k) b)"
      and body: "(let hash_content = S' @ str n'
                  in case encode hash_content of
                       Inl e \<Rightarrow> Some (Inl e)
                     | Inr data \<Rightarrow>
                         (let hash_value = py (hexdigest (sha256 data))
                          in if startswith hash_value tg'
                             then let end_time = te'; elapsed_time = end_time - st'
                                  in Some (Inr (n', hash_content, hash_value, elapsed_time))
                             else loop S' tg' st' te' (n' + 1))) = Some r'"
    show "encodable S' \<longrightarrow> (\<exists>k\<ge>n'. startswith (digest_of S' k) tg')"
    proof
      assume e: "encodable S'"
      show "\<exists>k\<ge>n'. startswith (digest_of S' k) tg'"
      proof (cases "startswith (digest_of S' n') tg'")
        case True
        then show ?thesis by blast
      next
        case False
        with body e have "loop S' tg' st' te' (n' + 1) = Some r'"
          by (simp add: encode_encodable encodable_seed_counter digest_of_def Let_def)
        from IH [OF this] e obtain k where "n' + 1 \<le> k" "startswith (digest_of S' k) tg'"
          by blast
        then show ?thesis by (intro exI [of _ k]) simp
      qed
    qed
  qed
  with enc show ?thesis by blast
qed

lemma pow_mining_loop_eq:
  "pow_mining_loop S tg st te n =
    (if \<not> encodable S then Some (Inl UnicodeEncodeError)
     else if \<exists>k\<ge>n. startswith (digest_of S k) tg
     then (let k = (LEAST k. n \<le> k \<and> startswith (digest_of S k) tg)
           in Some (Inr (k, S @ str k, digest_of S k, te - st)))
     else None)"
proof (cases "encodable S")
  case False
  then show ?thesis by (simp add: pow_mining_loop_unencodable)
next
  case enc: True
  show ?thesis
  proof (cases "\<exists>k\<ge>n. startswith (digest_of S k) tg")
    case False
    then have "pow_mining_loop S tg st te n = None"
      using pow_mining_loop_Some_hit [OF _ enc, of tg st te n]
      by (cases "pow_mining_loop S tg st te n") auto
    then show ?thesis using enc by (simp only: False if_False simp_thms)
  next
    case True
    define m where "m = (LEAST k. n \<le> k \<and> startswith (digest_of S k) tg)"
    from True have m: "n \<le> m \<and> startswith (digest_of S m) tg"
      unfolding m_def by (elim exE) (rule LeastI)
    have least: "\<not> startswith (digest_of S k) tg" if "n \<le> k" "k < m" for k
      using that not_less_Least [of k "\<lambda>k. n \<le> k \<and> startswith (digest_of S k) tg"]
      unfolding m_def by blast
    have "pow_mining_loop S tg st te n = pow_mining_loop S tg st te (n + (m - n))"
      using m by (intro pow_mining_loop_skip enc least) simp_all
    also have "\<dots> = Some (Inr (m, S @ str m, digest_of S m, te - st))"
      using m enc by (simp add: pow_mining_loop_hit)
    finally show ?thesis using True enc by (simp add: m_def Let_def)
  qed
qed

lemma find_pow_hash_loop_unencodable:
  "\<not> encodable S \<Longrightarrow> find_pow_hash_loop S tg n = Some (Inl UnicodeEncodeError)"
  by (subst find_pow_hash_loop.simps)
     (simp add: encode_not_encodable encodable_seed_counter)

lemma find_pow_hash_loop_hit:
  "encodable S \<Longrightarrow> startswith (digest_of S n) tg \<Longrightarrow>
   find_pow_hash_loop S tg n = Some (Inr (n, S @ str n, digest_of S n))"
  by (subst find_pow_hash_loop.simps)
     (simp add: encode_encodable encodable_seed_counter digest_of_def Let_def)

lemma find_pow_hash_loop_miss:
  "encodable S \<Longrightarrow> \<not> startswith (digest_of S n) tg \<Longrightarrow>
   find_pow_hash_loop S tg n = find_pow_hash_loop S tg (Suc n)"
  by (subst find_pow_hash_loop.simps)
     (simp add: encode_encodable encodable_seed_counter digest_of_def Let_def)

lemma find_pow_hash_loop_skip:
  "encodable S \<Longrightarrow>
   (\<And>k. n \<le> k \<Longrightarrow> k < n + d \<Longrightarrow> \<not> startswith (digest_of S k) tg) \<Longrightarrow>
   find_pow_hash_loop S tg n = find_pow_hash_loop S tg (n + d)"
proof (induction d)
  case 0
  show ?case by simp
next
  case (Suc d)
  have "find_pow_hash_loop S tg n = find_pow_hash_loop S tg (n + d)"
    using Suc.prems by (intro Suc.IH) simp_all
  also have "\<dots> = find_pow_hash_loop S tg (Suc (n + d))"
    using Suc.prems(1) Suc.prems(2) [of "n + d"] by (intro find_pow_hash_loop_miss) simp_all
  finally show ?case by simp
qed

lemma find_pow_hash_loop_Some_hit:
  assumes ret: "find_pow_hash_loop S tg n = Some r" and enc: "encodable S"
  shows "\<exists>k\<ge>n. startswith (digest_of S k) tg"
proof -
  have "encodable S \<longrightarrow> (\<exists>k\<ge>n. startswith (digest_of S k) tg)"
  proof (rule find_pow_hash_loop.raw_induct
      [where P = "\<lambda>S tg n r. encodable S \<longrightarrow> (\<exists>k\<ge>n. startswith (digest_of S k) tg)",
        OF _ ret])
    fix loop S' tg' n' r'
    assume IH: "\<And>a b e y. loop a b e = Some y \<Longrightarrow>
          encodable a \<longrightarrow> (\<exists>k\<ge>e. startswith (digest_of a k) b)"
      and body: "(let hash_content = S' @ str n'
                  in case encode hash_content of
                       Inl e \<Rightarrow> Some (Inl e)
                     | Inr data \<Rightarrow>
                         (let hash_value = py (hexdigest (sha256 data))
                          in if startswith hash_value tg'
                             then Some (Inr (n', hash_content, hash_value))
                             else loop S' tg' (n' + 1))) = Some r'"
    show "encodable S' \<longrightarrow> (\<exists>k\<ge>n'. startswith (digest_of S' k) tg')"
    proof
      assume e: "encodable S'"
      show "\<exists>k\<ge>n'. startswith (digest_of S' k) tg'"
      proof (cases "startswith (digest_of S' n') tg'")
        case True
        then show ?thesis by blast
      next
        case False
        with body e have "loop S' tg' (n' + 1) = Some r'"
          by (simp add: encode_encodable encodable_seed_counter digest_of_def Let_def)
        from IH [OF this] e obtain k where "n' + 1 \<le> k" "startswith (digest_of S' k) tg'"
          by blast
        then show ?thesis by (intro exI [of _ k]) simp
      qed
    qed
  qed
  with enc show ?thesis by blast
qed

lemma find_pow_hash_loop_eq:
  "find_pow_hash_loop S tg n =
    (if \<not> encodable S then Some (Inl UnicodeEncodeError)
     else if \<exists>k\<ge>n. startswith (digest_of S k) tg
     then (let k = (LEAST k. n \<le> k \<and> startswith (digest_of S k) tg)
           in Some (Inr (k, S @ str k, digest_of S k)))
     else None)"
proof (cases "encodable S")
  case False
  then show ?thesis by (simp add: find_pow_hash_loop_unencodable)
next
  case enc: True
  show ?thesis
  proof (cases "\<exists>k\<ge>n. startswith (digest_of S k) tg")
    case False
    then have "find_pow_hash_loop S tg n = None"
      using find_pow_hash_loop_Some_hit [OF _ enc, of tg n]
      by (cases "find_pow_hash_loop S tg n") auto
    then show ?thesis using enc by (simp only: False if_False simp_thms)
  next
    case True
    define m where "m = (LEAST k. n \<le> k \<and> startswith (digest_of S k) tg)"
    from True have m: "n \<le> m \<and> startswith (digest_of S m) tg"
      unfolding m_def by (elim exE) (rule LeastI)
    have least: "\<not> startswith (digest_of S k) tg" if "n \<le> k" "k < m" for k
      using that not_less_Least [of k "\<lambda>k. n \<le> k \<and> startswith (digest_of S k) tg"]
      unfolding m_def by blast
    have "find_pow_hash_loop S tg n = find_pow_hash_loop S tg (n + (m - n))"
      using m by (intro find_pow_hash_loop_skip enc least) simp_all
    also have "\<dots> = Some (Inr (m, S @ str m, digest_of S m))"
      using m enc by (simp add: find_pow_hash_loop_hit)
    finally show ?thesis using True enc by (simp add: m_def Let_def)
  qed
qed

text \<open>
  Both searches, from counter 0. The target string is built first, which raises when
  \<open>target_zeros\<close> does not fit the index type; the first pass raises when the seed has
  no encoding; otherwise the search returns exactly when some counter passes the test,
  and then at the least such counter.
\<close>

lemma pow_mining_eq:
  "pow_mining t0 t1 S D =
    (if D < - (2 ^ 63) \<or> 2 ^ 63 \<le> D then Some (Inl OverflowError)
     else if \<not> encodable S then Some (Inl UnicodeEncodeError)
     else if \<exists>k. zero_prefix D (digest_of S k)
     then (let k = (LEAST k. zero_prefix D (digest_of S k))
           in Some (Inr (k, S @ str k, digest_of S k, t1 - t0)))
     else None)"
  by (simp add: pow_mining_def str_repeat_zero pow_mining_loop_eq zero_prefix_startswith)

lemma find_pow_hash_eq:
  "find_pow_hash S D =
    (if D < - (2 ^ 63) \<or> 2 ^ 63 \<le> D then Some (Inl OverflowError)
     else if \<not> encodable S then Some (Inl UnicodeEncodeError)
     else if \<exists>k. zero_prefix D (digest_of S k)
     then (let k = (LEAST k. zero_prefix D (digest_of S k))
           in Some (Inr (k, S @ str k, digest_of S k)))
     else None)"
  by (simp add: find_pow_hash_def str_repeat_zero find_pow_hash_loop_eq zero_prefix_startswith)

lemma pow_mining_returns_iff:
  "pow_mining t0 t1 S D = Some (Inr (n, c, h, e)) \<longleftrightarrow>
     - (2 ^ 63) \<le> D \<and> D < 2 ^ 63 \<and> encodable S \<and>
     zero_prefix D (digest_of S n) \<and> (\<forall>k<n. \<not> zero_prefix D (digest_of S k)) \<and>
     c = S @ str n \<and> h = digest_of S n \<and> e = t1 - t0"
proof (cases "D < - (2 ^ 63) \<or> 2 ^ 63 \<le> D \<or> \<not> encodable S \<or> \<not> (\<exists>k. zero_prefix D (digest_of S k))")
  case True
  then show ?thesis by (auto simp: pow_mining_eq)
next
  case False
  then have range: "- (2 ^ 63) \<le> D" "D < 2 ^ 63" and enc: "encodable S"
    and ex: "\<exists>k. zero_prefix D (digest_of S k)"
    by auto
  define m where "m = (LEAST k. zero_prefix D (digest_of S k))"
  from ex have m: "zero_prefix D (digest_of S m)"
    unfolding m_def by (elim exE) (rule LeastI)
  have least: "\<not> zero_prefix D (digest_of S k)" if "k < m" for k
    using that not_less_Least [of k "\<lambda>k. zero_prefix D (digest_of S k)"]
    unfolding m_def by blast
  have n_eq: "n = m" if "zero_prefix D (digest_of S n)" "\<forall>k<n. \<not> zero_prefix D (digest_of S k)"
    using that m least by (meson linorder_neqE_nat)
  have "pow_mining t0 t1 S D = Some (Inr (m, S @ str m, digest_of S m, t1 - t0))"
    using ex range enc by (simp add: pow_mining_eq m_def Let_def)
  then show ?thesis using m least n_eq range enc by auto
qed

lemma pow_mining_nonpositive:
  "- (2 ^ 63) \<le> D \<Longrightarrow> D \<le> 0 \<Longrightarrow> encodable S \<Longrightarrow>
   pow_mining t0 t1 S D = Some (Inr (0, S @ py ''0'', digest_of S 0, t1 - t0))"
  by (simp add: pow_mining_returns_iff zero_prefix_nonpositive str_0)


section \<open>Digests of concrete inputs\<close>

text \<open>
  The digests that the concrete instances below refer to, computed by rewriting with the
  defining equations.
\<close>

lemma sha256_China_MY_0:
  "hexdigest (sha256 (map of_char ''China-MY0'')) =
     ''a9c601f822fc75552dc4aa40aa060002ca1059d4fb57ee5a82106f5eafae3a3b''"
  by code_simp

lemma sha256_k_0:
  "hexdigest (sha256 (map of_char ''k0'')) =
     ''d1a5ac9a015fac2ef7b341673635512a1511f41fe37d111b267f039eec5d4f58''"
  by code_simp

lemma sha256_k_1:
  "hexdigest (sha256 (map of_char ''k1'')) =
     ''6ab9f1eb8f7d3388f4f9d586f66e99fd54080df2c446f0e58668b09c08a16dd0''"
  by code_simp

lemma sha256_k_2:
  "hexdigest (sha256 (map of_char ''k2'')) =
     ''015f7e6bc5aeaf483724089e9252cc13b50951a6b69412522765cff4d780306e''"
  by code_simp

lemma str_small: "str 0 = py ''0''" "str 1 = py ''1''" "str 2 = py ''2''"
  by (simp_all add: str.simps py_def)

lemma encodable_concrete: "encodable (py ''China-MY'')" "encodable (py ''k'')"
  by (simp_all add: encodable_def py_def encode_code_point_def)

lemma utf8_concrete:
  "utf8 (py ''China-MY'' @ py ''0'') = map of_char ''China-MY0''"
  "utf8 (py ''k'' @ py ''0'') = map of_char ''k0''"
  "utf8 (py ''k'' @ py ''1'') = map of_char ''k1''"
  "utf8 (py ''k'' @ py ''2'') = map of_char ''k2''"
  by (simp_all add: utf8_def py_def encode_code_point_def)

lemma digest_China_MY_0:
  "digest_of (py ''China-MY'') 0 =
     py ''a9c601f822fc75552dc4aa40aa060002ca1059d4fb57ee5a82106f5eafae3a3b''"
  by (simp only: digest_of_def str_small utf8_concrete sha256_China_MY_0)

lemma digest_k:
  "digest_of (py ''k'') 0 = py ''d1a5ac9a015fac2ef7b341673635512a1511f41fe37d111b267f039eec5d4f58''"
  "digest_of (py ''k'') 1 = py ''6ab9f1eb8f7d3388f4f9d586f66e99fd54080df2c446f0e58668b09c08a16dd0''"
  "digest_of (py ''k'') 2 = py ''015f7e6bc5aeaf483724089e9252cc13b50951a6b69412522765cff4d780306e''"
  by (simp_all only: digest_of_def str_small utf8_concrete sha256_k_0 sha256_k_1 sha256_k_2)

text \<open>
  The search for the seed \<open>k\<close> at difficulty 1: the counters 0 and 1 fail, the counter
  2 is the first whose digest starts with a zero.
\<close>

lemma zero_prefix_k:
  "\<not> zero_prefix 1 (digest_of (py ''k'') 0)" "\<not> zero_prefix 1 (digest_of (py ''k'') 1)"
  "zero_prefix 1 (digest_of (py ''k'') 2)"
  unfolding digest_k by (simp_all add: zero_prefix_def py_def)

lemma search_k_1:
  "pow_mining t0 t1 (py ''k'') 1 =
     Some (Inr (2, py ''k2'',
                py ''015f7e6bc5aeaf483724089e9252cc13b50951a6b69412522765cff4d780306e'',
                t1 - t0))"
proof -
  have "\<forall>j<2. \<not> zero_prefix 1 (digest_of (py ''k'') j)"
  proof (intro allI impI)
    fix j :: nat
    assume "j < 2"
    then have "j = 0 \<or> j = 1" by auto
    then show "\<not> zero_prefix 1 (digest_of (py ''k'') j)" using zero_prefix_k by blast
  qed
  moreover have "- (2 ^ 63) \<le> (1 :: int)" and "(1 :: int) < 2 ^ 63" by simp_all
  ultimately have "pow_mining t0 t1 (py ''k'') 1 =
      Some (Inr (2, py ''k'' @ str 2, digest_of (py ''k'') 2, t1 - t0))"
    using zero_prefix_k(3) encodable_concrete(2)
    by (simp only: pow_mining_returns_iff simp_thms)
  moreover have "py ''k'' @ str 2 = py ''k2''" by (simp add: str_small py_def)
  ultimately show ?thesis by (simp only: digest_k)
qed

lemma search_China_MY_0:
  "pow_mining t0 t1 (py ''China-MY'') 0 =
     Some (Inr (0, py ''China-MY0'',
                py ''a9c601f822fc75552dc4aa40aa060002ca1059d4fb57ee5a82106f5eafae3a3b'',
                t1 - t0))"
proof -
  have "pow_mining t0 t1 (py ''China-MY'') 0 =
      Some (Inr (0, py ''China-MY'' @ py ''0'', digest_of (py ''China-MY'') 0, t1 - t0))"
    using encodable_concrete(1) by (intro pow_mining_nonpositive) simp_all
  moreover have "py ''China-MY'' @ py ''0'' = py ''China-MY0''" by (simp add: py_def)
  ultimately show ?thesis by (simp only: digest_China_MY_0)
qed


section \<open>The claims about the search\<close>

text \<open>
  C1, as amended. For every seed and every difficulty \<open>D \<ge> 0\<close>, the search returns a
  result exactly when the seed has a UTF-8 encoding and some counter's digest starts
  with \<open>D\<close> zero characters. Whenever it returns, the returned digest is the digest of
  the seed followed by the returned counter, it starts with \<open>D\<close> zero characters, and
  no smaller counter's digest does: the returned counter is the least one. A digest has
  64 characters, so for \<open>D > 64\<close> the search returns no result.
\<close>

theorem pow_mining_returns_least_counter:
  "0 \<le> D \<Longrightarrow>
   ((\<exists>r. pow_mining t0 t1 S D = Some (Inr r)) \<longleftrightarrow>
      encodable S \<and> (\<exists>k. zero_prefix D (digest_of S k))) \<and>
   (\<forall>n c h e. pow_mining t0 t1 S D = Some (Inr (n, c, h, e)) \<longrightarrow>
      h = digest_of S n \<and> zero_prefix D h \<and> (\<forall>c'<n. \<not> zero_prefix D (digest_of S c'))) \<and>
   (64 < D \<longrightarrow> \<not> (\<exists>r. pow_mining t0 t1 S D = Some (Inr r)))"
proof -
  assume D: "0 \<le> D"
  have long: "\<not> (\<exists>k. zero_prefix D (digest_of S k))" if "64 < D"
    using that digest_never_has_65_zeros by blast
  have returns: "(\<exists>r. pow_mining t0 t1 S D = Some (Inr r)) \<longleftrightarrow>
      encodable S \<and> (\<exists>k. zero_prefix D (digest_of S k))"
  proof (cases "2 ^ 63 \<le> D")
    case True
    then have "64 < D" by simp
    from long [OF this] True show ?thesis by (simp add: pow_mining_eq)
  next
    case False
    with D show ?thesis by (simp add: pow_mining_eq Let_def)
  qed
  have least: "h = digest_of S n \<and> zero_prefix D h \<and> (\<forall>c'<n. \<not> zero_prefix D (digest_of S c'))"
    if "pow_mining t0 t1 S D = Some (Inr (n, c, h, e))" for n c h e
    using that by (simp add: pow_mining_returns_iff)
  have never: "\<not> (\<exists>r. pow_mining t0 t1 S D = Some (Inr r))" if "64 < D"
    using long [OF that] returns by blast
  from returns least never show ?thesis by blast
qed

theorem pow_mining_returns_least_counter_witness:
  "(0 :: int) \<le> 1 \<and>
   pow_mining 0 1 (py ''k'') 1 =
     Some (Inr (2, py ''k2'',
                py ''015f7e6bc5aeaf483724089e9252cc13b50951a6b69412522765cff4d780306e'', 1)) \<and>
   zero_prefix 1 (py ''015f7e6bc5aeaf483724089e9252cc13b50951a6b69412522765cff4d780306e'') \<and>
   \<not> zero_prefix 1 (digest_of (py ''k'') 0) \<and> \<not> zero_prefix 1 (digest_of (py ''k'') 1) \<and>
   \<not> (\<exists>r. pow_mining 0 1 (py ''k'') 65 = Some (Inr r))"
proof -
  have ret: "pow_mining 0 1 (py ''k'') 1 =
      Some (Inr (2, py ''k2'',
                 py ''015f7e6bc5aeaf483724089e9252cc13b50951a6b69412522765cff4d780306e'', 1))"
    using search_k_1 [of 0 1] by simp
  have one: "(0 :: int) \<le> 1" and big: "(0 :: int) \<le> 65" by simp_all
  note all = pow_mining_returns_least_counter [OF one, of 0 1 "py ''k''"]
  from all ret have props:
    "zero_prefix 1 (py ''015f7e6bc5aeaf483724089e9252cc13b50951a6b69412522765cff4d780306e'') \<and>
     (\<forall>c'<2. \<not> zero_prefix 1 (digest_of (py ''k'') c'))"
    by blast
  then have "\<not> zero_prefix 1 (digest_of (py ''k'') 0)"
    and "\<not> zero_prefix 1 (digest_of (py ''k'') 1)"
    by simp_all
  moreover have "\<not> (\<exists>r. pow_mining 0 1 (py ''k'') 65 = Some (Inr r))"
    using pow_mining_returns_least_counter [OF big, of 0 1 "py ''k''"] by simp
  ultimately show ?thesis using ret props one by blast
qed

text \<open>
  The claim as it was stated fails: at difficulty 65 the search for the seed
  \<open>China-MY\<close> never ends, since no digest of 64 characters starts with 65 zeros.
\<close>

theorem pow_mining_difficulty_65_counterexample:
  "pow_mining 0 0 (py ''China-MY'') 65 = None"
proof -
  have "\<not> (\<exists>k. zero_prefix 65 (digest_of (py ''China-MY'') k))"
    using digest_never_has_65_zeros [of 65] by simp
  then show ?thesis using encodable_concrete(1) by (simp add: pow_mining_eq)
qed

text \<open>
  C2. The search result's committed input is the seed followed by the decimal text of
  the returned counter (the text reads back as the counter), and the digest is the
  SHA-256 digest of the UTF-8 bytes of the committed input, written as 64 lowercase
  hexadecimal characters. This holds of every result the search returns, and the search
  does return such a result whenever the seed has an encoding, the difficulty fits the
  index type and some counter's digest passes the test.
\<close>

theorem pow_mining_result_shape:
  "(\<forall>n c h e. pow_mining t0 t1 S D = Some (Inr (n, c, h, e)) \<longrightarrow>
      c = S @ str n \<and> decimal_value (drop (length S) c) = n \<and>
      encode c = Inr (utf8 c) \<and> h = py (hexdigest (sha256 (utf8 c))) \<and>
      length h = 64 \<and> set h \<subseteq> set (py ''0123456789abcdef'')) \<and>
   (encodable S \<and> - (2 ^ 63) \<le> D \<and> D < 2 ^ 63 \<and> (\<exists>k. zero_prefix D (digest_of S k)) \<longrightarrow>
      (\<exists>n c h e. pow_mining t0 t1 S D = Some (Inr (n, c, h, e)) \<and>
         c = S @ str n \<and> decimal_value (drop (length S) c) = n \<and>
         encode c = Inr (utf8 c) \<and> h = py (hexdigest (sha256 (utf8 c))) \<and>
         length h = 64 \<and> set h \<subseteq> set (py ''0123456789abcdef'')))"
proof -
  have shape: "c = S @ str n \<and> decimal_value (drop (length S) c) = n \<and>
      encode c = Inr (utf8 c) \<and> h = py (hexdigest (sha256 (utf8 c))) \<and>
      length h = 64 \<and> set h \<subseteq> set (py ''0123456789abcdef'')"
    if ret: "pow_mining t0 t1 S D = Some (Inr (n, c, h, e))" for n c h e
  proof -
    from ret have c: "c = S @ str n" and h: "h = digest_of S n" and enc: "encodable S"
      by (simp_all add: pow_mining_returns_iff)
    have "decimal_value (drop (length S) c) = n"
      by (simp add: c decimal_value_str)
    moreover have "encode c = Inr (utf8 c)"
      unfolding c using enc by (intro encode_encodable) (simp add: encodable_seed_counter)
    moreover have "h = py (hexdigest (sha256 (utf8 c)))"
      by (simp add: c h digest_of_def)
    moreover have "length h = 64"
      by (simp add: h length_digest_of)
    moreover have "set h \<subseteq> set (py ''0123456789abcdef'')"
      unfolding h digest_of_def by (rule set_py_hexdigest)
    ultimately show ?thesis using c by blast
  qed
  have produced: "\<exists>n c h e. pow_mining t0 t1 S D = Some (Inr (n, c, h, e))"
    if "encodable S" "- (2 ^ 63) \<le> D" "D < 2 ^ 63" "\<exists>k. zero_prefix D (digest_of S k)"
    using that by (simp add: pow_mining_eq Let_def)
  from shape produced show ?thesis by blast
qed

theorem pow_mining_result_shape_witness:
  "encodable (py ''k'') \<and> - (2 ^ 63) \<le> (1 :: int) \<and> (1 :: int) < 2 ^ 63 \<and>
   zero_prefix 1 (digest_of (py ''k'') 2) \<and>
   pow_mining 0 1 (py ''k'') 1 =
     Some (Inr (2, py ''k2'',
                py ''015f7e6bc5aeaf483724089e9252cc13b50951a6b69412522765cff4d780306e'', 1)) \<and>
   py ''k2'' = py ''k'' @ str 2 \<and> decimal_value (drop (length (py ''k'')) (py ''k2'')) = 2 \<and>
   encode (py ''k2'') = Inr (utf8 (py ''k2'')) \<and>
   py ''015f7e6bc5aeaf483724089e9252cc13b50951a6b69412522765cff4d780306e'' =
     py (hexdigest (sha256 (utf8 (py ''k2'')))) \<and>
   length (py ''015f7e6bc5aeaf483724089e9252cc13b50951a6b69412522765cff4d780306e'') = 64"
proof -
  have ret: "pow_mining 0 1 (py ''k'') 1 =
      Some (Inr (2, py ''k2'',
                 py ''015f7e6bc5aeaf483724089e9252cc13b50951a6b69412522765cff4d780306e'', 1))"
    using search_k_1 [of 0 1] by simp
  have pre: "encodable (py ''k'')" "- (2 ^ 63) \<le> (1 :: int)" "(1 :: int) < 2 ^ 63"
    "zero_prefix 1 (digest_of (py ''k'') 2)"
    using encodable_concrete(2) zero_prefix_k(3) by simp_all
  note shape = pow_mining_result_shape [of 0 1 "py ''k''" 1]
  from shape ret have
    "py ''k2'' = py ''k'' @ str 2 \<and> decimal_value (drop (length (py ''k'')) (py ''k2'')) = 2 \<and>
     encode (py ''k2'') = Inr (utf8 (py ''k2'')) \<and>
     py ''015f7e6bc5aeaf483724089e9252cc13b50951a6b69412522765cff4d780306e'' =
       py (hexdigest (sha256 (utf8 (py ''k2'')))) \<and>
     length (py ''015f7e6bc5aeaf483724089e9252cc13b50951a6b69412522765cff4d780306e'') = 64"
    by blast
  with pre ret show ?thesis by blast
qed

text \<open>
  C3. The search is deterministic in its counter, committed input and digest: two runs
  with the same seed and the same difficulty, under any clock readings, agree on these
  three components, on whether they return at all, and on the exception when they
  raise; only the elapsed time may differ.
\<close>

theorem pow_mining_deterministic:
  "map_option (map_sum (\<lambda>e. e) without_time) (pow_mining t0 t1 S D) =
     map_option (map_sum (\<lambda>e. e) without_time) (pow_mining t0' t1' S D)"
  by (simp add: pow_mining_eq without_time_def Let_def)

text \<open>
  C9. The two implementations of the search agree: for every nickname and
  \<open>target_zeros\<close>, \<open>find_pow_hash\<close> returns the first three components (nonce,
  hash_content, hash_value) of what \<open>pow_mining\<close> returns on the same arguments; one
  of them runs forever exactly when the other does, and they raise the same exceptions.
\<close>

theorem find_pow_hash_agrees_with_pow_mining:
  "find_pow_hash nickname target_zeros =
     map_option (map_sum (\<lambda>e. e) without_time) (pow_mining t0 t1 nickname target_zeros)"
  by (simp add: find_pow_hash_eq pow_mining_eq without_time_def Let_def)

text \<open>
  C7, as amended. For every seed that has a UTF-8 encoding, a search with difficulty 0
  succeeds on the very first attempt: it returns counter 0, and the committed input is
  the seed followed by the text \<open>0\<close>. For a seed without an encoding the first attempt
  raises \<open>UnicodeEncodeError\<close>.
\<close>

theorem pow_mining_difficulty_zero:
  "(encodable S \<longrightarrow>
      pow_mining t0 t1 S 0 =
        Some (Inr (0, S @ py ''0'', py (hexdigest (sha256 (utf8 (S @ py ''0'')))), t1 - t0))) \<and>
   (\<not> encodable S \<longrightarrow> pow_mining t0 t1 S 0 = Some (Inl UnicodeEncodeError))"
proof (intro conjI impI)
  assume "encodable S"
  then show "pow_mining t0 t1 S 0 =
      Some (Inr (0, S @ py ''0'', py (hexdigest (sha256 (utf8 (S @ py ''0'')))), t1 - t0))"
    using pow_mining_nonpositive [of 0 S t0 t1] by (simp add: digest_of_def str_0)
next
  assume "\<not> encodable S"
  then show "pow_mining t0 t1 S 0 = Some (Inl UnicodeEncodeError)"
    by (simp add: pow_mining_eq)
qed

theorem pow_mining_difficulty_zero_witness:
  "encodable (py ''China-MY'') \<and>
   pow_mining 0 1 (py ''China-MY'') 0 =
     Some (Inr (0, py ''China-MY'' @ py ''0'',
                py (hexdigest (sha256 (utf8 (py ''China-MY'' @ py ''0'')))), 1)) \<and>
   py (hexdigest (sha256 (utf8 (py ''China-MY'' @ py ''0'')))) =
     py ''a9c601f822fc75552dc4aa40aa060002ca1059d4fb57ee5a82106f5eafae3a3b'' \<and>
   \<not> encodable [0xD800] \<and>
   pow_mining 0 1 [0xD800] 0 = Some (Inl UnicodeEncodeError)"
proof -
  have enc: "encodable (py ''China-MY'')" by (rule encodable_concrete)
  have sur: "\<not> encodable [0xD800]"
    using surrogate_not_encodable [of "0xD800" "[]" "[]"] by simp
  have "pow_mining 0 1 (py ''China-MY'') 0 =
      Some (Inr (0, py ''China-MY'' @ py ''0'',
                 py (hexdigest (sha256 (utf8 (py ''China-MY'' @ py ''0'')))), 1))"
    using pow_mining_difficulty_zero [of "py ''China-MY''" 0 1] enc by simp
  moreover have "py (hexdigest (sha256 (utf8 (py ''China-MY'' @ py ''0'')))) =
      py ''a9c601f822fc75552dc4aa40aa060002ca1059d4fb57ee5a82106f5eafae3a3b''"
    by (simp only: utf8_concrete sha256_China_MY_0)
  moreover have "pow_mining 0 1 [0xD800] 0 = Some (Inl UnicodeEncodeError)"
    using pow_mining_difficulty_zero [of "[0xD800]" 0 1] sur by simp
  ultimately show ?thesis using enc sur by blast
qed

text \<open>
  The claim as it was stated fails for a seed that holds a lone surrogate: the string
  \<open>'\ud800'\<close> has no UTF-8 encoding, and the search raises instead of returning
  counter 0.
\<close>

theorem pow_mining_surrogate_seed_counterexample:
  "pow_mining 0 1 [0xD800] 0 = Some (Inl UnicodeEncodeError)"
proof -
  have "\<not> encodable [0xD800]"
    using surrogate_not_encodable [of "0xD800" "[]" "[]"] by simp
  then show ?thesis by (simp add: pow_mining_eq)
qed

text \<open>
  C10, as amended. For every \<open>target_zeros\<close> from \<open>-2^63\<close> to 0, the target prefix
  \<open>'0' * target_zeros\<close> is the empty string and the search behaves exactly as it does
  for difficulty 0: for every seed that has a UTF-8 encoding it returns counter 0 on the
  first attempt. Below \<open>-2^63\<close> the count does not fit the index type and the search
  raises \<open>OverflowError\<close>.
\<close>

theorem pow_mining_nonpositive_difficulty:
  "(- (2 ^ 63) \<le> target_zeros \<and> target_zeros \<le> 0 \<longrightarrow>
      str_repeat (py ''0'') target_zeros = Inr [] \<and>
      pow_mining t0 t1 S target_zeros = pow_mining t0 t1 S 0 \<and>
      (encodable S \<longrightarrow>
         pow_mining t0 t1 S target_zeros =
           Some (Inr (0, S @ py ''0'', py (hexdigest (sha256 (utf8 (S @ py ''0'')))), t1 - t0)))) \<and>
   (target_zeros < - (2 ^ 63) \<longrightarrow> pow_mining t0 t1 S target_zeros = Some (Inl OverflowError))"
proof (intro conjI impI)
  assume range: "- (2 ^ 63) \<le> target_zeros \<and> target_zeros \<le> 0"
  then show empty: "str_repeat (py ''0'') target_zeros = Inr []"
    by (simp add: str_repeat_zero)
  have "str_repeat (py ''0'') 0 = Inr []" by (simp add: str_repeat_zero)
  with empty show "pow_mining t0 t1 S target_zeros = pow_mining t0 t1 S 0"
    by (simp add: pow_mining_def)
  assume "encodable S"
  with range show "pow_mining t0 t1 S target_zeros =
      Some (Inr (0, S @ py ''0'', py (hexdigest (sha256 (utf8 (S @ py ''0'')))), t1 - t0))"
    using pow_mining_nonpositive [of target_zeros S t0 t1] by (simp add: digest_of_def str_0)
next
  assume "target_zeros < - (2 ^ 63)"
  then show "pow_mining t0 t1 S target_zeros = Some (Inl OverflowError)"
    by (simp add: pow_mining_eq)
qed

theorem pow_mining_nonpositive_difficulty_witness:
  "- (2 ^ 63) \<le> (- 3 :: int) \<and> (- 3 :: int) \<le> 0 \<and> encodable (py ''China-MY'') \<and>
   str_repeat (py ''0'') (- 3) = Inr [] \<and>
   pow_mining 0 1 (py ''China-MY'') (- 3) = pow_mining 0 1 (py ''China-MY'') 0 \<and>
   pow_mining 0 1 (py ''China-MY'') (- 3) =
     Some (Inr (0, py ''China-MY'' @ py ''0'',
                py (hexdigest (sha256 (utf8 (py ''China-MY'' @ py ''0'')))), 1)) \<and>
   (- 9223372036854775809 :: int) < - (2 ^ 63) \<and>
   pow_mining 0 1 (py ''China-MY'') (- 9223372036854775809) = Some (Inl OverflowError)"
proof -
  have pre: "- (2 ^ 63) \<le> (- 3 :: int) \<and> (- 3 :: int) \<le> 0" by simp
  have low: "(- 9223372036854775809 :: int) < - (2 ^ 63)" by simp
  have enc: "encodable (py ''China-MY'')" by (rule encodable_concrete)
  note a = pow_mining_nonpositive_difficulty
    [of "- 3" 0 1 "py ''China-MY''", unfolded diff_zero]
  note b = pow_mining_nonpositive_difficulty [of "- 9223372036854775809" 0 1 "py ''China-MY''"]
  from a pre enc have
    "str_repeat (py ''0'') (- 3) = Inr [] \<and>
     pow_mining 0 1 (py ''China-MY'') (- 3) = pow_mining 0 1 (py ''China-MY'') 0 \<and>
     pow_mining 0 1 (py ''China-MY'') (- 3) =
       Some (Inr (0, py ''China-MY'' @ py ''0'',
                  py (hexdigest (sha256 (utf8 (py ''China-MY'' @ py ''0'')))), 1))"
    by blast
  moreover from b low have
    "pow_mining 0 1 (py ''China-MY'') (- 9223372036854775809) = Some (Inl OverflowError)"
    by blast
  ultimately show ?thesis using pre low enc by blast
qed

text \<open>
  The claim as it was stated fails below \<open>-2^63\<close>: with
  \<open>target_zeros = -2^63 - 1\<close> the expression \<open>'0' * target_zeros\<close> raises
  \<open>OverflowError\<close> and the search returns nothing.
\<close>

theorem pow_mining_below_index_range_counterexample:
  "pow_mining 0 1 (py ''China-MY'') (- 9223372036854775809) = Some (Inl OverflowError)"
  by (simp add: pow_mining_eq)

text \<open>
  C8, as amended. Whenever the search returns, the elapsed time is the reading of the
  wall clock taken after the winning test minus the reading taken before the first
  attempt. It is non-negative exactly when the clock did not go backwards between the
  two readings.
\<close>

theorem pow_mining_elapsed_time:
  "pow_mining t0 t1 S D = Some (Inr (n, c, h, e)) \<Longrightarrow>
     e = t1 - t0 \<and> (0 \<le> e \<longleftrightarrow> t0 \<le> t1)"
  by (auto simp: pow_mining_returns_iff)

theorem pow_mining_elapsed_time_witness:
  "pow_mining 1 3 (py ''k'') 1 =
     Some (Inr (2, py ''k2'',
                py ''015f7e6bc5aeaf483724089e9252cc13b50951a6b69412522765cff4d780306e'', 2)) \<and>
   (2 :: real) = 3 - 1 \<and> (0 \<le> (2 :: real) \<longleftrightarrow> (1 :: real) \<le> 3)"
proof -
  have ret: "pow_mining 1 3 (py ''k'') 1 =
      Some (Inr (2, py ''k2'',
                 py ''015f7e6bc5aeaf483724089e9252cc13b50951a6b69412522765cff4d780306e'', 2))"
    using search_k_1 [of 1 3] by simp
  note el = pow_mining_elapsed_time [OF ret]
  show ?thesis by (rule conjI [OF ret]) (use el in blast)
qed

text \<open>
  The claim as it was stated fails when the wall clock is set back during the search:
  with the readings 10 and then 5 the elapsed time is negative.
\<close>

theorem pow_mining_elapsed_time_counterexample:
  "pow_mining 10 5 (py ''China-MY'') 0 =
     Some (Inr (0, py ''China-MY0'',
                py ''a9c601f822fc75552dc4aa40aa060002ca1059d4fb57ee5a82106f5eafae3a3b'', - 5)) \<and>
   (- 5 :: real) < 0"
  using search_China_MY_0 [of 10 5] by simp


section \<open>The claims about signatures\<close>

text \<open>
  C4, as amended. \<open>verify_signature\<close> returns a boolean whenever the library's
  \<open>verify\<close> returns or raises an exception that derives from \<open>Exception\<close>: true
  exactly when the library call returned, false for every such failure, a message
  without a UTF-8 encoding included. An exception that derives from \<open>BaseException\<close>
  only, raised inside the library call, reaches the caller, and nothing else does.
\<close>

theorem verify_signature_outcomes:
  "(verify_signature verify public_key message signature = Inr True \<longleftrightarrow>
      (\<exists>data. encode message = Inr data \<and>
         verify public_key signature data (PSS (MGF1 SHA256) MAX_LENGTH) SHA256 = Inr ())) \<and>
   (verify_signature verify public_key message signature = Inr False \<longleftrightarrow>
      (\<exists>e. encode message = Inl e) \<or>
      (\<exists>data e. encode message = Inr data \<and>
         verify public_key signature data (PSS (MGF1 SHA256) MAX_LENGTH) SHA256 = Inl e \<and>
         is_Exception e)) \<and>
   (verify_signature verify public_key message signature = Inl x \<longleftrightarrow>
      (\<exists>data. encode message = Inr data \<and>
         verify public_key signature data (PSS (MGF1 SHA256) MAX_LENGTH) SHA256 = Inl x \<and>
         \<not> is_Exception x)) \<and>
   ((\<forall>data e. verify public_key signature data (PSS (MGF1 SHA256) MAX_LENGTH) SHA256 = Inl e
        \<longrightarrow> is_Exception e) \<longrightarrow>
      (\<exists>b. verify_signature verify public_key message signature = Inr b))"
proof (cases "encode message")
  case (Inl e)
  then have "e = UnicodeEncodeError" by (rule encode_error)
  with Inl show ?thesis by (auto simp: verify_signature_def except_Exception_def)
next
  case (Inr data)
  show ?thesis
  proof (cases "verify public_key signature data (PSS (MGF1 SHA256) MAX_LENGTH) SHA256")
    case (Inl e)
    with Inr show ?thesis
      by (cases "is_Exception e") (auto simp: verify_signature_def except_Exception_def)
  next
    case (Inr u)
    with \<open>encode message = Inr data\<close> show ?thesis
      by (auto simp: verify_signature_def except_Exception_def)
  qed
qed

theorem verify_signature_outcomes_witness:
  "verify_signature (\<lambda>pk sg data pad alg. if sg = data then Inr () else Inl InvalidSignature)
     () (py ''China-MY0'') [] = Inr False \<and>
   verify_signature (\<lambda>pk sg data pad alg. if sg = data then Inr () else Inl InvalidSignature)
     () (py ''China-MY0'') (map of_char ''China-MY0'') = Inr True \<and>
   verify_signature (\<lambda>pk sg data pad alg. if sg = data then Inr () else Inl InvalidSignature)
     () [0xD800] [] = Inr False"
proof -
  let ?V = "\<lambda>(pk :: unit) (sg :: byte list) (data :: byte list) (pad :: padding)
      (alg :: hash_algorithm). if sg = data then Inr () else (Inl InvalidSignature :: exn + unit)"
  have enc: "encode (py ''China-MY0'') = Inr (map of_char ''China-MY0'')"
    by (simp add: py_def encode_code_point_def)
  have sur: "encode [0xD800] = Inl UnicodeEncodeError"
    by (simp add: encode_code_point_def)
  have "verify_signature ?V () (py ''China-MY0'') [] = Inr False"
    using verify_signature_outcomes [of ?V "()" "py ''China-MY0''" "[]"] enc by simp
  moreover have "verify_signature ?V () (py ''China-MY0'') (map of_char ''China-MY0'') = Inr True"
    using verify_signature_outcomes [of ?V "()" "py ''China-MY0''" "map of_char ''China-MY0''"] enc
    by simp
  moreover have "verify_signature ?V () [0xD800] [] = Inr False"
    using verify_signature_outcomes [of ?V "()" "[0xD800]" "[]"] sur by simp
  ultimately show ?thesis by blast
qed

text \<open>
  The claim as it was stated fails when the library call is interrupted: a
  \<open>KeyboardInterrupt\<close> raised inside \<open>public_key.verify\<close> is not caught by
  \<open>except Exception\<close> and leaves \<open>verify_signature\<close>.
\<close>

theorem verify_signature_interrupt_counterexample:
  "verify_signature (\<lambda>pk sg data pad alg. Inl KeyboardInterrupt) () (py ''China-MY0'') []
     = Inl KeyboardInterrupt"
  by (simp add: verify_signature_def except_Exception_def py_def encode_code_point_def)

text \<open>
  What the two wrappers contribute to a round trip: they hand the library the same
  bytes, the same padding and the same hash. If the library's \<open>verify\<close> accepts what
  its \<open>sign\<close> produced for these arguments, \<open>verify_signature\<close> returns true on the
  output of \<open>sign_message\<close>. Whether the library does so is a property of the library.
\<close>

lemma roundtrip_relative_to_library:
  assumes "sign_message sign salt private_key message = Inr signature"
    and "\<And>bytes pad alg sg. sign private_key bytes pad alg salt = Inr sg \<Longrightarrow>
           verify public_key sg bytes pad alg = Inr ()"
  shows "verify_signature verify public_key message signature = Inr True"
  using assms
  by (cases "encode message")
     (simp_all add: sign_message_def verify_signature_def except_Exception_def)


end
